theory Spec2Isabelle
  imports Complex_Main "HOL-Library.Multiset"
begin

section \<open>Calendar arithmetic used by the timestamp columns\<close>

text \<open>
  \<^verbatim>\<open>etl.py\<close> turns the epoch-millisecond column \<open>ts\<close> into two strings with Python's
  \<^verbatim>\<open>datetime.fromtimestamp(x/1000).strftime(...)\<close> and lets Spark SQL read calendar
  fields back out of those strings with \<^verbatim>\<open>extract(... from ...)\<close>. Both sides work in
  the proleptic Gregorian calendar. A civil date is a triple (year, month, day); a time of
  day is a triple (hour, minute, second); days are counted from 1970-01-01 (day 0).
\<close>

type_synonym date = "int \<times> int \<times> int"
type_synonym time_of_day = "int \<times> int \<times> int"

definition is_leap :: "int \<Rightarrow> bool" where
  "is_leap y \<longleftrightarrow> y mod 4 = 0 \<and> (y mod 100 \<noteq> 0 \<or> y mod 400 = 0)"

definition days_in_year :: "int \<Rightarrow> int" where
  "days_in_year y = (if is_leap y then 366 else 365)"

definition days_in_month :: "int \<Rightarrow> int \<Rightarrow> int" where
  "days_in_month y m =
     (if m = 2 then (if is_leap y then 29 else 28)
      else if m = 4 \<or> m = 6 \<or> m = 9 \<or> m = 11 then 30 else 31)"

text \<open>Number of days from 1970-01-01 to the first of January of year \<open>y\<close>.\<close>

definition days_before_year :: "int \<Rightarrow> int" where
  "days_before_year y =
     365 * (y - 1970) + ((y - 1) div 4 - (y - 1) div 100 + (y - 1) div 400) - 477"

text \<open>Number of days of year \<open>y\<close> that lie before the first of month \<open>m\<close>.\<close>

definition days_before_month :: "int \<Rightarrow> int \<Rightarrow> int" where
  "days_before_month y m = (\<Sum>k \<leftarrow> [1..m - 1]. days_in_month y k)"

definition valid_date :: "date \<Rightarrow> bool" where
  "valid_date dt = (case dt of (y, m, d) \<Rightarrow>
     1 \<le> y \<and> y \<le> 9999 \<and> 1 \<le> m \<and> m \<le> 12 \<and> 1 \<le> d \<and> d \<le> days_in_month y m)"

definition days_from_civil :: "date \<Rightarrow> int" where
  "days_from_civil dt = (case dt of (y, m, d) \<Rightarrow>
     days_before_year y + days_before_month y m + (d - 1))"

text \<open>
  The inverse direction searches the year, then the month. \<open>find_year y r\<close> is called with
  \<open>r\<close> the day offset from the first of January of year \<open>y\<close> and moves year by year until
  the offset lies inside the year.
\<close>

function find_year :: "int \<Rightarrow> int \<Rightarrow> int \<times> int" where
  "find_year y r =
     (if r < 0 then find_year (y - 1) (r + days_in_year (y - 1))
      else if days_in_year y \<le> r then find_year (y + 1) (r - days_in_year y)
      else (y, r))"
  by pat_completeness auto
termination
  by (relation "measure (\<lambda>(y, r). if 0 \<le> r \<and> r < days_in_year y then 0 else 1 + nat \<bar>r\<bar>)")
     (auto simp: days_in_year_def)

declare find_year.simps [simp del]

fun find_month :: "int \<Rightarrow> int list \<Rightarrow> int \<Rightarrow> int \<Rightarrow> int \<times> int" where
  "find_month y [] m r = (m, r + 1)"
| "find_month y (k # ks) m r =
     (if r < days_in_month y k then (k, r + 1)
      else find_month y ks k (r - days_in_month y k))"

definition civil_from_days :: "int \<Rightarrow> date" where
  "civil_from_days z =
     (case find_year 1970 z of (y, r) \<Rightarrow>
        (case find_month y [1..12] 12 r of (m, d) \<Rightarrow> (y, m, d)))"

text \<open>
  ISO-8601 weekday (1 = Monday .. 7 = Sunday) and week number of a day count; day 0
  (1970-01-01) was a Thursday.
\<close>

definition iso_weekday :: "int \<Rightarrow> int" where
  "iso_weekday z = (z + 3) mod 7 + 1"

definition iso_weeks_in_year :: "int \<Rightarrow> int" where
  "iso_weeks_in_year y =
     (let jan1 = iso_weekday (days_before_year y)
      in if jan1 = 4 \<or> (is_leap y \<and> jan1 = 3) then 53 else 52)"

definition iso_week :: "date \<Rightarrow> int" where
  "iso_week dt = (case dt of (y, m, d) \<Rightarrow>
     (let doy = days_before_month y m + d;
          w = (doy - iso_weekday (days_from_civil dt) + 10) div 7
      in if w < 1 then iso_weeks_in_year (y - 1)
         else if w > iso_weeks_in_year y then 1
         else w))"


section \<open>Python side: \<^verbatim>\<open>datetime.fromtimestamp(x/1000).strftime(...)\<close>\<close>

datatype error =
    PythonException          \<comment> \<open>a Python UDF raised (TypeError on null, year out of range)\<close>
  | AnalysisException string \<comment> \<open>Spark SQL: table or view not found\<close>

text \<open>
  \<^verbatim>\<open>datetime.fromtimestamp\<close> converts epoch seconds to the local wall-clock time of the
  process. The local time zone is outside the program, so it is a parameter: \<open>utcoffset s\<close>
  is the offset from UTC, in seconds, that is in force at epoch second \<open>s\<close>. Python's
  \<^verbatim>\<open>datetime\<close> only has the years 1 to 9999 and raises outside of them.
\<close>

definition fromtimestamp :: "(int \<Rightarrow> int) \<Rightarrow> int \<Rightarrow> error + (date \<times> time_of_day)" where
  "fromtimestamp utcoffset secs =
     (let local = secs + utcoffset secs;
          dt = civil_from_days (local div 86400);
          sod = local mod 86400
      in if fst dt < 1 \<or> 9999 < fst dt then Inl PythonException
         else Inr (dt, (sod div 3600, sod mod 3600 div 60, sod mod 60)))"

definition digit_char :: "int \<Rightarrow> char" where
  "digit_char n = char_of (48 + n)"

definition zero_pad2 :: "int \<Rightarrow> string" where
  "zero_pad2 n = [digit_char (n div 10), digit_char (n mod 10)]"

definition zero_pad4 :: "int \<Rightarrow> string" where
  "zero_pad4 n = zero_pad2 (n div 100) @ zero_pad2 (n mod 100)"

text \<open>
  \<^verbatim>\<open>strftime('%Y-%m-%d')\<close> and \<^verbatim>\<open>strftime('%Y-%m-%d %H:%M:%S')\<close>. Every field is
  zero-padded to its width; for the year that is what the C library prints from the year
  1000 on (before it, the padding of \<^verbatim>\<open>%Y\<close> differs between platforms).
\<close>

definition strftime_date :: "date \<times> time_of_day \<Rightarrow> string" where
  "strftime_date x = (case x of ((y, m, d), _) \<Rightarrow>
     zero_pad4 y @ ''-'' @ zero_pad2 m @ ''-'' @ zero_pad2 d)"

definition strftime_datetime :: "date \<times> time_of_day \<Rightarrow> string" where
  "strftime_datetime x = (case x of ((y, m, d), (H, M, S)) \<Rightarrow>
     zero_pad4 y @ ''-'' @ zero_pad2 m @ ''-'' @ zero_pad2 d @ '' '' @
     zero_pad2 H @ '':'' @ zero_pad2 M @ '':'' @ zero_pad2 S)"

text \<open>
  The two UDFs of \<^verbatim>\<open>process_log_data\<close>. The column \<open>ts\<close> is a nullable 64-bit integer;
  on a null the lambda evaluates \<^verbatim>\<open>None/1000\<close> and raises. \<^verbatim>\<open>x/1000\<close> is a float
  division whose result \<^verbatim>\<open>fromtimestamp\<close> rounds to microseconds and \<^verbatim>\<open>strftime\<close> then
  cuts to whole seconds; for an integer number of milliseconds that is the floor
  \<open>x div 1000\<close>.
\<close>

definition get_timestamp :: "(int \<Rightarrow> int) \<Rightarrow> int option \<Rightarrow> error + string" where
  "get_timestamp utcoffset x =
     (case x of None \<Rightarrow> Inl PythonException
      | Some ms \<Rightarrow> map_sum id strftime_datetime (fromtimestamp utcoffset (ms div 1000)))"

definition get_datetime :: "(int \<Rightarrow> int) \<Rightarrow> int option \<Rightarrow> error + string" where
  "get_datetime utcoffset x =
     (case x of None \<Rightarrow> Inl PythonException
      | Some ms \<Rightarrow> map_sum id strftime_date (fromtimestamp utcoffset (ms div 1000)))"

section \<open>Spark SQL side: \<^verbatim>\<open>extract(field from string_column)\<close>\<close>

text \<open>
  \<^verbatim>\<open>extract\<close> on a string column casts the string to a date (year, month, day,
  dayofweek, week) or to a timestamp (hour) first; a string that is no date yields null.
  The parsers below read the zero-padded forms \<^verbatim>\<open>yyyy-mm-dd\<close> and
  \<^verbatim>\<open>yyyy-mm-dd hh:mm:ss\<close>, the only ones the UDFs produce. A date-only string cast to a
  timestamp is midnight of that date.
\<close>

definition digit_val :: "char \<Rightarrow> int option" where
  "digit_val c = (let n = of_char c - (48::int) in if 0 \<le> n \<and> n \<le> 9 then Some n else None)"

fun parse_digits :: "int \<Rightarrow> string \<Rightarrow> int option" where
  "parse_digits acc [] = Some acc"
| "parse_digits acc (c # cs) =
     (case digit_val c of None \<Rightarrow> None | Some d \<Rightarrow> parse_digits (10 * acc + d) cs)"

definition stringToDate :: "string \<Rightarrow> date option" where
  "stringToDate s =
     (if 10 \<le> length s \<and> s ! 4 = CHR ''-'' \<and> s ! 7 = CHR ''-'' \<and>
         (length s = 10 \<or> s ! 10 = CHR '' '' \<or> s ! 10 = CHR ''T'')
      then (case (parse_digits 0 (take 4 s), parse_digits 0 (take 2 (drop 5 s)),
                  parse_digits 0 (take 2 (drop 8 s))) of
              (Some y, Some m, Some d) \<Rightarrow> if valid_date (y, m, d) then Some (y, m, d) else None
            | _ \<Rightarrow> None)
      else None)"

definition stringToTime :: "string \<Rightarrow> time_of_day option" where
  "stringToTime s =
     (if length s = 8 \<and> s ! 2 = CHR '':'' \<and> s ! 5 = CHR '':''
      then (case (parse_digits 0 (take 2 s), parse_digits 0 (take 2 (drop 3 s)),
                  parse_digits 0 (take 2 (drop 6 s))) of
              (Some H, Some M, Some S) \<Rightarrow>
                if H \<le> 23 \<and> M \<le> 59 \<and> S \<le> 59 then Some (H, M, S) else None
            | _ \<Rightarrow> None)
      else None)"

definition stringToTimestamp :: "string \<Rightarrow> (date \<times> time_of_day) option" where
  "stringToTimestamp s =
     (case stringToDate s of None \<Rightarrow> None
      | Some dt \<Rightarrow>
          if length s = 10 then Some (dt, (0, 0, 0))
          else map_option (Pair dt) (stringToTime (drop 11 s)))"

definition extract_hour :: "string \<Rightarrow> int option" where
  "extract_hour s = map_option (\<lambda>(dt, (H, M, S)). H) (stringToTimestamp s)"

definition extract_day :: "string \<Rightarrow> int option" where
  "extract_day s = map_option (\<lambda>(y, m, d). d) (stringToDate s)"

definition extract_week :: "string \<Rightarrow> int option" where
  "extract_week s = map_option iso_week (stringToDate s)"

definition extract_month :: "string \<Rightarrow> int option" where
  "extract_month s = map_option (\<lambda>(y, m, d). m) (stringToDate s)"

definition extract_year :: "string \<Rightarrow> int option" where
  "extract_year s = map_option (\<lambda>(y, m, d). y) (stringToDate s)"

text \<open>Spark's \<^verbatim>\<open>dayofweek\<close>: the ISO weekday shifted by one, so that Sunday comes first.\<close>

definition extract_dayofweek :: "string \<Rightarrow> int option" where
  "extract_dayofweek s =
     map_option (\<lambda>dt. iso_weekday (days_from_civil dt) mod 7 + 1) (stringToDate s)"


section \<open>Dataframes\<close>

text \<open>
  A dataframe is a list of rows; a row is a record with one field per column that the
  program refers to, and a nullable column has an option type (\<open>None\<close> is SQL null, also
  for a field that is missing from a JSON record). Columns read from JSON keep their
  names; the columns of the derived tables carry the alias that the SQL of
  \<^verbatim>\<open>songplays_table\<close> gives their table (\<open>a\<close>, \<open>t\<close>) or \<open>sp\<close> for the fact table.
  JSON numbers with a fraction are doubles; they are modelled by the number they denote.

  The event log: \<open>users_row\<close> has the columns of the users table, \<open>event\<close> the twelve
  columns that \<^verbatim>\<open>filtered_df\<close> selects, \<open>log_rec\<close> adds \<open>page\<close>, the only other column
  of the raw log that the program reads.
\<close>

record users_row =
  userId :: "string option"
  firstName :: "string option"
  lastName :: "string option"
  gender :: "string option"
  level :: "string option"

record event = users_row +
  artist :: "string option"
  length' :: "real option"
  location :: "string option"
  sessionId :: "int option"
  song :: "string option"
  ts :: "int option"
  userAgent :: "string option"

record log_rec = event +
  page :: "string option"

text \<open>The events after \<^verbatim>\<open>withColumn("timestamp", ...)\<close> and \<^verbatim>\<open>withColumn("datetime", ...)\<close>.\<close>

record staged_event = event +
  timestamp :: string
  datetime :: string

text \<open>The song metadata: \<open>songs_row\<close> has the columns of the songs table.\<close>

record songs_row =
  song_id :: "string option"
  title :: "string option"
  artist_id :: "string option"
  year :: "int option"
  duration :: "real option"

record song_rec = songs_row +
  artist_name :: "string option"
  artist_location :: "string option"
  artist_latitude :: "real option"
  artist_longitude :: "real option"

record artists_row =
  a_artist_id :: "string option"
  a_name :: "string option"
  a_location :: "string option"
  a_lattitude :: "real option"
  a_longitude :: "real option"

record time_row =
  t_start_time :: string
  t_hour :: "int option"
  t_day :: "int option"
  t_week :: "int option"
  t_month :: "int option"
  t_year :: "int option"
  t_weekday :: "int option"

record songplays_row =
  sp_start_time :: string
  sp_user_id :: "string option"
  sp_level :: "string option"
  sp_song_id :: "string option"
  sp_artist_id :: "string option"
  sp_session_id :: "int option"
  sp_location :: "string option"
  sp_user_agent :: "string option"
  sp_year :: "int option"
  sp_month :: "int option"

subsection \<open>SQL comparison\<close>

text \<open>
  A comparison with a null operand is null, and a join keeps a pair of rows only where
  its \<^verbatim>\<open>ON\<close> condition is true.
\<close>

definition sql_eq :: "'a option \<Rightarrow> 'a option \<Rightarrow> bool option" where
  "sql_eq x y = (case (x, y) of (Some a, Some b) \<Rightarrow> Some (a = b) | _ \<Rightarrow> None)"

definition sql_and :: "bool option \<Rightarrow> bool option \<Rightarrow> bool option" where
  "sql_and p q =
     (if p = Some False \<or> q = Some False then Some False
      else if p = Some True \<and> q = Some True then Some True
      else None)"

definition is_true :: "bool option \<Rightarrow> bool" where
  "is_true p \<longleftrightarrow> p = Some True"

section \<open>\<^verbatim>\<open>process_song_data\<close>\<close>

text \<open>\<^verbatim>\<open>df.select('song_id', 'title', 'artist_id', 'year', 'duration')\<close>\<close>

definition songs_of :: "song_rec \<Rightarrow> songs_row" where
  "songs_of s =
     \<lparr>song_id = song_id s, title = title s, artist_id = artist_id s,
      year = year s, duration = duration s\<rparr>"

definition songs_table :: "song_rec list \<Rightarrow> songs_row list" where
  "songs_table df = map songs_of df"

text \<open>\<^verbatim>\<open>select artist_id, artist_name as name, ... from staging_songs_table\<close>\<close>

definition artists_of :: "song_rec \<Rightarrow> artists_row" where
  "artists_of s =
     \<lparr>a_artist_id = artist_id s, a_name = artist_name s, a_location = artist_location s,
      a_lattitude = artist_latitude s, a_longitude = artist_longitude s\<rparr>"

definition artists_table :: "song_rec list \<Rightarrow> artists_row list" where
  "artists_table staging_songs = map artists_of staging_songs"

section \<open>\<^verbatim>\<open>process_log_data\<close>\<close>

text \<open>
  \<^verbatim>\<open>df.filter(df.page == 'NextSong').select(<twelve columns>).dropDuplicates()\<close>.
  A row whose \<open>page\<close> is null fails the filter. \<^verbatim>\<open>dropDuplicates\<close> compares whole rows and
  takes nulls as equal to each other.
\<close>

definition select_event :: "log_rec \<Rightarrow> event" where
  "select_event r =
     \<lparr>userId = userId r, firstName = firstName r, lastName = lastName r, gender = gender r,
      level = level r, artist = artist r, length' = length' r, location = location r,
      sessionId = sessionId r, song = song r, ts = ts r, userAgent = userAgent r\<rparr>"

definition filtered_df :: "log_rec list \<Rightarrow> event list" where
  "filtered_df df = remdups (map select_event (filter (\<lambda>r. page r = Some ''NextSong'') df))"

text \<open>\<^verbatim>\<open>filtered_df.select('userId', 'firstName', 'lastName', 'gender', 'level')\<close>\<close>

definition users_of :: "event \<Rightarrow> users_row" where
  "users_of e =
     \<lparr>userId = userId e, firstName = firstName e, lastName = lastName e,
      gender = gender e, level = level e\<rparr>"

definition user_table :: "event list \<Rightarrow> users_row list" where
  "user_table df = map users_of df"

text \<open>
  The two \<^verbatim>\<open>withColumn\<close> calls, row by row. A UDF that raises on one row fails the job
  that evaluates the column.
\<close>

definition with_columns :: "(int \<Rightarrow> int) \<Rightarrow> event \<Rightarrow> error + staged_event" where
  "with_columns utcoffset e =
     (case get_timestamp utcoffset (ts e) of
        Inl err \<Rightarrow> Inl err
      | Inr t \<Rightarrow>
          (case get_datetime utcoffset (ts e) of
             Inl err \<Rightarrow> Inl err
           | Inr d \<Rightarrow>
               Inr \<lparr>userId = userId e, firstName = firstName e, lastName = lastName e,
                    gender = gender e, level = level e, artist = artist e,
                    length' = length' e, location = location e, sessionId = sessionId e,
                    song = song e, ts = ts e, userAgent = userAgent e,
                    timestamp = t, datetime = d\<rparr>))"

fun staging_events :: "(int \<Rightarrow> int) \<Rightarrow> event list \<Rightarrow> error + staged_event list" where
  "staging_events utcoffset [] = Inr []"
| "staging_events utcoffset (e # es) =
     (case with_columns utcoffset e of
        Inl err \<Rightarrow> Inl err
      | Inr r \<Rightarrow>
          (case staging_events utcoffset es of
             Inl err \<Rightarrow> Inl err
           | Inr rs \<Rightarrow> Inr (r # rs)))"

text \<open>
  \<^verbatim>\<open>select distinct timestamp AS start_time, extract(hour from datetime) as hour, ...,
  extract(dayofweek from timestamp) as weekday from staging_events_table\<close>
\<close>

definition time_of :: "staged_event \<Rightarrow> time_row" where
  "time_of e =
     \<lparr>t_start_time = timestamp e,
      t_hour = extract_hour (datetime e),
      t_day = extract_day (datetime e),
      t_week = extract_week (datetime e),
      t_month = extract_month (datetime e),
      t_year = extract_year (datetime e),
      t_weekday = extract_dayofweek (timestamp e)\<rparr>"

definition time_table :: "staged_event list \<Rightarrow> time_row list" where
  "time_table staging_events_table = remdups (map time_of staging_events_table)"

text \<open>
  The songplays query. \<open>songplays_join\<close> is its \<^verbatim>\<open>FROM ... JOIN ... ON ...\<close> part: the
  combinations of an event, a song, an artist and a time row that pass the three
  \<^verbatim>\<open>ON\<close> conditions; \<open>songplays_of\<close> is its \<^verbatim>\<open>select\<close> list.
\<close>

definition on_song :: "staged_event \<Rightarrow> song_rec \<Rightarrow> bool" where
  "on_song e s \<longleftrightarrow> is_true (sql_and (sql_eq (song e) (title s)) (sql_eq (length' e) (duration s)))"

definition on_artist :: "staged_event \<Rightarrow> song_rec \<Rightarrow> artists_row \<Rightarrow> bool" where
  "on_artist e s a \<longleftrightarrow>
     is_true (sql_and (sql_eq (artist e) (a_name a)) (sql_eq (a_artist_id a) (artist_id s)))"

definition on_time :: "staged_event \<Rightarrow> time_row \<Rightarrow> bool" where
  "on_time e t \<longleftrightarrow> is_true (sql_eq (Some (timestamp e)) (Some (t_start_time t)))"

definition songplays_join ::
  "staged_event list \<Rightarrow> song_rec list \<Rightarrow> artists_row list \<Rightarrow> time_row list \<Rightarrow>
   (staged_event \<times> song_rec \<times> artists_row \<times> time_row) list" where
  "songplays_join e_rows s_rows a_rows t_rows =
     [(e, s, a, t). e \<leftarrow> e_rows, s \<leftarrow> s_rows, on_song e s,
                    a \<leftarrow> a_rows, on_artist e s a, t \<leftarrow> t_rows, on_time e t]"

definition songplays_of :: "staged_event \<times> song_rec \<times> artists_row \<times> time_row \<Rightarrow> songplays_row" where
  "songplays_of x = (case x of (e, s, a, t) \<Rightarrow>
     \<lparr>sp_start_time = timestamp e, sp_user_id = userId e, sp_level = level e,
      sp_song_id = song_id s, sp_artist_id = artist_id s, sp_session_id = sessionId e,
      sp_location = location e, sp_user_agent = userAgent e,
      sp_year = t_year t, sp_month = t_month t\<rparr>)"

definition songplays_table ::
  "staged_event list \<Rightarrow> song_rec list \<Rightarrow> artists_row list \<Rightarrow> time_row list \<Rightarrow>
   songplays_row list" where
  "songplays_table e_rows s_rows a_rows t_rows =
     map songplays_of (songplays_join e_rows s_rows a_rows t_rows)"


section \<open>Session, storage and the two jobs\<close>

text \<open>
  The Spark session holds the temporary views that \<^verbatim>\<open>createOrReplaceTempView\<close> registers
  (\<open>None\<close>: no view of that name). The storage holds the JSON records under the two input
  paths and, for each of the five output paths, the table last written there in mode
  \<^verbatim>\<open>overwrite\<close> (\<open>None\<close>: nothing written).
\<close>

record session =
  view_staging_songs_table :: "song_rec list option"
  view_artists_table :: "artists_row list option"
  view_staging_events_table :: "staged_event list option"
  view_time_table :: "time_row list option"

record storage =
  song_data :: "song_rec list"
  log_data :: "log_rec list"
  out_songs :: "songs_row list option"
  out_artists :: "artists_row list option"
  out_users :: "users_row list option"
  out_time :: "time_row list option"
  out_songplays :: "songplays_row list option"

definition create_spark_session :: session where
  "create_spark_session =
     \<lparr>view_staging_songs_table = None, view_artists_table = None,
      view_staging_events_table = None, view_time_table = None\<rparr>"

text \<open>
  \<^verbatim>\<open>process_song_data\<close>: read the song files, register them as \<open>staging_songs_table\<close>,
  write the songs table, compute the artists table from the view just registered,
  register it as \<open>artists_table\<close> and write it.
\<close>

definition process_song_data :: "session \<times> storage \<Rightarrow> session \<times> storage" where
  "process_song_data x = (case x of (spark, st) \<Rightarrow>
     (let df = song_data st;
          spark1 = spark\<lparr>view_staging_songs_table := Some df\<rparr>;
          st1 = st\<lparr>out_songs := Some (songs_table df)\<rparr>;
          artists = artists_table df;
          spark2 = spark1\<lparr>view_artists_table := Some artists\<rparr>;
          st2 = st1\<lparr>out_artists := Some artists\<rparr>
      in (spark2, st2)))"

text \<open>
  The songplays query resolves its four views in the session, in the order of its
  \<^verbatim>\<open>FROM\<close> clause, and fails on the first one that is not registered.
\<close>

definition lookup_view :: "string \<Rightarrow> 'a option \<Rightarrow> error + 'a" where
  "lookup_view name v = (case v of None \<Rightarrow> Inl (AnalysisException name) | Some t \<Rightarrow> Inr t)"

definition sql_songplays :: "session \<Rightarrow> error + songplays_row list" where
  "sql_songplays spark =
     (case lookup_view ''staging_events_table'' (view_staging_events_table spark) of
        Inl err \<Rightarrow> Inl err
      | Inr e \<Rightarrow>
     (case lookup_view ''staging_songs_table'' (view_staging_songs_table spark) of
        Inl err \<Rightarrow> Inl err
      | Inr s \<Rightarrow>
     (case lookup_view ''artists_table'' (view_artists_table spark) of
        Inl err \<Rightarrow> Inl err
      | Inr a \<Rightarrow>
     (case lookup_view ''time_table'' (view_time_table spark) of
        Inl err \<Rightarrow> Inl err
      | Inr t \<Rightarrow> Inr (songplays_table e s a t)))))"

text \<open>
  \<^verbatim>\<open>process_log_data\<close>, in the order in which the source acts: the users table is written
  from the filtered events; the two UDF columns are evaluated when the time table is
  written, and a raising UDF ends the job there; the song files are read again into
  \<open>song_df\<close>; the songplays query is analysed and its result written. The time query
  reads the view \<open>staging_events_table\<close> that the line before it registers. A failed
  job returns its error only: what it wrote before it failed is not kept in the model.
\<close>

definition process_log_data ::
  "(int \<Rightarrow> int) \<Rightarrow> session \<times> storage \<Rightarrow> error + session \<times> storage" where
  "process_log_data utcoffset x = (case x of (spark, st) \<Rightarrow>
     (let df = log_data st;
          filtered = filtered_df df;
          st1 = st\<lparr>out_users := Some (user_table filtered)\<rparr>
      in case staging_events utcoffset filtered of
           Inl err \<Rightarrow> Inl err
         | Inr staged \<Rightarrow>
             (let spark1 = spark\<lparr>view_staging_events_table := Some staged\<rparr>;
                  tt = time_table staged;
                  spark2 = spark1\<lparr>view_time_table := Some tt\<rparr>;
                  st2 = st1\<lparr>out_time := Some tt\<rparr>;
                  song_df = song_data st2
              in case sql_songplays spark2 of
                   Inl err \<Rightarrow> Inl err
                 | Inr songplays \<Rightarrow> Inr (spark2, st2\<lparr>out_songplays := Some songplays\<rparr>))))"

definition main :: "(int \<Rightarrow> int) \<Rightarrow> storage \<Rightarrow> error + session \<times> storage" where
  "main utcoffset st =
     (let spark = create_spark_session
      in process_log_data utcoffset (process_song_data (spark, st)))"


section \<open>What a run leaves behind\<close>



section \<open>The weekday of a day count\<close>

text \<open>
  What the weekday column is compared with: the name of the weekday of a day count (day
  0, 1970-01-01, was a Thursday), the numbering that starts with Sunday = 1 and ends with
  Saturday = 7, and the local day count of an epoch-millisecond value.
\<close>

datatype weekday_name = Sunday | Monday | Tuesday | Wednesday | Thursday | Friday | Saturday

definition weekday_of_day :: "int \<Rightarrow> weekday_name" where
  "weekday_of_day z =
     [Thursday, Friday, Saturday, Sunday, Monday, Tuesday, Wednesday] ! nat (z mod 7)"

fun sunday_first :: "weekday_name \<Rightarrow> int" where
  "sunday_first Sunday = 1"
| "sunday_first Monday = 2"
| "sunday_first Tuesday = 3"
| "sunday_first Wednesday = 4"
| "sunday_first Thursday = 5"
| "sunday_first Friday = 6"
| "sunday_first Saturday = 7"

definition local_day :: "(int \<Rightarrow> int) \<Rightarrow> int \<Rightarrow> int" where
  "local_day utcoffset ms = (ms div 1000 + utcoffset (ms div 1000)) div 86400"

section \<open>Example data\<close>

text \<open>
  One playback event of the event log (\<open>ts = 1541121934796\<close>), a page view of the same
  user, and three song records: two with the same title and duration by different
  artists, and a third that lists the second artist's id under the first artist's name.
\<close>

definition utc :: "int \<Rightarrow> int" where
  "utc s = 0"

definition ev_play :: log_rec where
  "ev_play =
     \<lparr>userId = Some ''26'', firstName = Some ''Ryan'', lastName = Some ''Smith'',
      gender = Some ''M'', level = Some ''free'', artist = Some ''Casual'',
      length' = Some 218, location = Some ''San Jose'', sessionId = Some 583,
      song = Some ''Sono andati'', ts = Some 1541121934796,
      userAgent = Some ''Mozilla'', page = Some ''NextSong''\<rparr>"

definition ev_home :: log_rec where
  "ev_home = ev_play\<lparr>page := Some ''Home''\<rparr>"

definition ev_play_later :: log_rec where
  "ev_play_later = ev_play\<lparr>ts := Some 1541121934999\<rparr>"

definition song_casual :: song_rec where
  "song_casual =
     \<lparr>song_id = Some ''SOMZWCG12A8C13C480'', title = Some ''Sono andati'',
      artist_id = Some ''ARD7TVE1187B99BFB1'', year = Some 0, duration = Some 218,
      artist_name = Some ''Casual'', artist_location = Some ''California'',
      artist_latitude = None, artist_longitude = None\<rparr>"

definition song_other :: song_rec where
  "song_other =
     \<lparr>song_id = Some ''SOXXXXX12A8C13C481'', title = Some ''Sono andati'',
      artist_id = Some ''ARNTLGG11E2835DDB9'', year = Some 2001, duration = Some 218,
      artist_name = Some ''Clp'', artist_location = None,
      artist_latitude = None, artist_longitude = None\<rparr>"

definition song_alias :: song_rec where
  "song_alias =
     \<lparr>song_id = Some ''SOYYYYY12A8C13C482'', title = Some ''Another Title'',
      artist_id = Some ''ARNTLGG11E2835DDB9'', year = Some 2003, duration = Some 187,
      artist_name = Some ''Casual'', artist_location = None,
      artist_latitude = None, artist_longitude = None\<rparr>"

definition input_storage :: "song_rec list \<Rightarrow> log_rec list \<Rightarrow> storage" where
  "input_storage songs events =
     \<lparr>song_data = songs, log_data = events, out_songs = None, out_artists = None,
      out_users = None, out_time = None, out_songplays = None\<rparr>"


text \<open>
  The playback event after the two \<^verbatim>\<open>withColumn\<close> calls under UTC, and a variant of it
  whose song is in no song record.
\<close>

definition staged_play :: staged_event where
  "staged_play =
     \<lparr>userId = Some ''26'', firstName = Some ''Ryan'', lastName = Some ''Smith'',
      gender = Some ''M'', level = Some ''free'', artist = Some ''Casual'',
      length' = Some 218, location = Some ''San Jose'', sessionId = Some 583,
      song = Some ''Sono andati'', ts = Some 1541121934796,
      userAgent = Some ''Mozilla'', timestamp = ''2018-11-02 01:25:34'',
      datetime = ''2018-11-02''\<rparr>"

definition staged_unmatched :: staged_event where
  "staged_unmatched = staged_play\<lparr>song := Some ''Unknown''\<rparr>"

definition example_songs :: "song_rec list" where
  "example_songs = [song_casual, song_other]"

definition example_log :: "log_rec list" where
  "example_log = [ev_play, ev_home, ev_play, ev_play_later]"

text \<open>
  The result of a run of \<^verbatim>\<open>main\<close> under UTC on the two songs and the four log records:
  the session's views and the storage with the five tables.
\<close>

definition staged_play_later :: staged_event where
  "staged_play_later = staged_play\<lparr>ts := Some 1541121934999\<rparr>"

definition example_time_row :: time_row where
  "example_time_row =
     \<lparr>t_start_time = ''2018-11-02 01:25:34'', t_hour = Some 0, t_day = Some 2,
      t_week = Some 44, t_month = Some 11, t_year = Some 2018, t_weekday = Some 6\<rparr>"

definition example_songplay :: songplays_row where
  "example_songplay =
     \<lparr>sp_start_time = ''2018-11-02 01:25:34'', sp_user_id = Some ''26'',
      sp_level = Some ''free'', sp_song_id = Some ''SOMZWCG12A8C13C480'',
      sp_artist_id = Some ''ARD7TVE1187B99BFB1'', sp_session_id = Some 583,
      sp_location = Some ''San Jose'', sp_user_agent = Some ''Mozilla'',
      sp_year = Some 2018, sp_month = Some 11\<rparr>"

definition example_session :: session where
  "example_session =
     \<lparr>view_staging_songs_table = Some example_songs,
      view_artists_table = Some [artists_of song_casual, artists_of song_other],
      view_staging_events_table = Some [staged_play, staged_play_later],
      view_time_table = Some [example_time_row]\<rparr>"

definition example_output :: storage where
  "example_output =
     \<lparr>song_data = example_songs, log_data = example_log,
      out_songs = Some [songs_of song_casual, songs_of song_other],
      out_artists = Some [artists_of song_casual, artists_of song_other],
      out_users = Some [users_of (select_event ev_play), users_of (select_event ev_play)],
      out_time = Some [example_time_row],
      out_songplays = Some [example_songplay, example_songplay]\<rparr>"

text \<open>The state of that run between its two jobs.\<close>

definition example_songs_session :: session where
  "example_songs_session =
     \<lparr>view_staging_songs_table = Some example_songs,
      view_artists_table = Some [artists_of song_casual, artists_of song_other],
      view_staging_events_table = None, view_time_table = None\<rparr>"

definition example_songs_output :: storage where
  "example_songs_output =
     \<lparr>song_data = example_songs, log_data = example_log,
      out_songs = Some [songs_of song_casual, songs_of song_other],
      out_artists = Some [artists_of song_casual, artists_of song_other],
      out_users = None, out_time = None, out_songplays = None\<rparr>"

section \<open>Deduplication of the filtered events\<close>

lemma count_list_remdups: "count_list (remdups xs) x = (if x \<in> set xs then 1 else 0)"
  by (induction xs) auto

lemma set_filtered_df:
  "set (filtered_df df) = select_event ` {r \<in> set df. page r = Some ''NextSong''}"
  unfolding filtered_df_def by simp

lemma distinct_filtered_df: "distinct (filtered_df df)"
  unfolding filtered_df_def by simp

text \<open>
  C6 (as amended). If the raw event log holds two records, at different positions, that
  agree on all twelve selected columns, and at least one of the two is a playback event
  (\<open>page = NextSong\<close>), then \<open>filtered_df\<close> holds exactly one row with those twelve
  values. (\<open>page\<close> is not one of the twelve columns: without a playback event among the
  two, the filter may leave no row at all.)
\<close>

theorem C6_dedup_one_row:
  assumes "i < length df" and "j < length df" and "i \<noteq> j"
    and "select_event (df ! i) = select_event (df ! j)"
    and "page (df ! i) = Some ''NextSong'' \<or> page (df ! j) = Some ''NextSong''"
  shows "count_list (filtered_df df) (select_event (df ! i)) = 1"
proof -
  from assms(5) obtain k where k: "k < length df" "page (df ! k) = Some ''NextSong''"
    "select_event (df ! k) = select_event (df ! i)"
    using assms(1,2,4) by auto
  from k(1,2) have "df ! k \<in> {r \<in> set df. page r = Some ''NextSong''}"
    by simp
  then have "select_event (df ! k) \<in> set (filtered_df df)"
    unfolding set_filtered_df by (rule imageI)
  then have "select_event (df ! i) \<in>
      set (remdups (map select_event (filter (\<lambda>r. page r = Some ''NextSong'') df)))"
    unfolding k(3) filtered_df_def .
  then show ?thesis
    unfolding filtered_df_def count_list_remdups by simp
qed

text \<open>Two identical playback events with a page view between them: one row.\<close>

theorem C6_dedup_one_row_witness:
  "(0::nat) < length [ev_play, ev_home, ev_play] \<and>
   (2::nat) < length [ev_play, ev_home, ev_play] \<and> (0::nat) \<noteq> 2 \<and>
   select_event ([ev_play, ev_home, ev_play] ! 0) = select_event ([ev_play, ev_home, ev_play] ! 2) \<and>
   page ([ev_play, ev_home, ev_play] ! 0) = Some ''NextSong'' \<and>
   count_list (filtered_df [ev_play, ev_home, ev_play])
     (select_event ([ev_play, ev_home, ev_play] ! 0)) = 1"
  using C6_dedup_one_row [of 0 "[ev_play, ev_home, ev_play]" 2]
  by (simp add: ev_play_def)

text \<open>
  The claim as stated fails: two identical page views agree on all twelve selected
  columns, and the filtered events hold no row for them.
\<close>

theorem C6_two_page_views_counterexample:
  "(0::nat) < length [ev_home, ev_home] \<and> (1::nat) < length [ev_home, ev_home] \<and>
   (0::nat) \<noteq> 1 \<and>
   select_event ([ev_home, ev_home] ! 0) = select_event ([ev_home, ev_home] ! 1) \<and>
   count_list (filtered_df [ev_home, ev_home]) (select_event ([ev_home, ev_home] ! 0)) = 0"
  by (simp add: filtered_df_def ev_home_def ev_play_def)


section \<open>The songplays join\<close>

lemma songplays_join_iff:
  "(e, s, a, t) \<in> set (songplays_join e_rows s_rows a_rows t_rows) \<longleftrightarrow>
     e \<in> set e_rows \<and> s \<in> set s_rows \<and> on_song e s \<and> a \<in> set a_rows \<and> on_artist e s a \<and>
     t \<in> set t_rows \<and> on_time e t"
  by (auto simp: songplays_join_def)

lemma on_song_iff:
  "on_song e s \<longleftrightarrow>
     song e \<noteq> None \<and> song e = title s \<and> length' e \<noteq> None \<and> length' e = duration s"
  by (auto simp: on_song_def is_true_def sql_and_def sql_eq_def split: option.splits)

lemma on_artist_iff:
  "on_artist e s a \<longleftrightarrow>
     artist e \<noteq> None \<and> artist e = a_name a \<and>
     a_artist_id a \<noteq> None \<and> a_artist_id a = artist_id s"
  by (auto simp: on_artist_def is_true_def sql_and_def sql_eq_def split: option.splits)

lemma on_time_iff: "on_time e t \<longleftrightarrow> timestamp e = t_start_time t"
  by (auto simp: on_time_def is_true_def sql_eq_def)

lemma songplays_join_Cons:
  "songplays_join (e # e_rows) s_rows a_rows t_rows =
     songplays_join [e] s_rows a_rows t_rows @ songplays_join e_rows s_rows a_rows t_rows"
  by (simp add: songplays_join_def)

lemma songplays_join_no_song:
  assumes "\<forall>s \<in> set s_rows. \<not> on_song e s"
  shows "songplays_join [e] s_rows a_rows t_rows = []"
  using assms by (simp add: songplays_join_def)

lemma songplays_join_removeAll:
  assumes "\<forall>s \<in> set s_rows. \<not> on_song e s"
  shows "songplays_join (removeAll e e_rows) s_rows a_rows t_rows =
         songplays_join e_rows s_rows a_rows t_rows"
proof (induction e_rows)
  case Nil
  show ?case by simp
next
  case (Cons x xs)
  show ?case
  proof (cases "x = e")
    case True
    then show ?thesis
      using Cons songplays_join_Cons [of e xs] songplays_join_no_song [OF assms] by simp
  next
    case False
    then show ?thesis
      using Cons songplays_join_Cons [of x xs] songplays_join_Cons [of x "removeAll e xs"]
      by simp
  qed
qed

lemma staged_play_eq: "with_columns utc (select_event ev_play) = Inr staged_play"
  by code_simp

text \<open>
  C3. An event whose (song, length) pair equals the (title, duration) pair of no song
  record (a null never equals anything) takes part in no combination of the songplays
  join, and the songplays table is the same as if the event were not in the event table
  at all: the event yields no row, null-filled or other.
\<close>

theorem C3_no_match_no_row:
  assumes "\<forall>s \<in> set s_rows.
    \<not> (song e \<noteq> None \<and> song e = title s \<and> length' e \<noteq> None \<and> length' e = duration s)"
  shows "filter (\<lambda>x. fst x = e) (songplays_join e_rows s_rows a_rows t_rows) = [] \<and>
         songplays_table e_rows s_rows a_rows t_rows =
         songplays_table (removeAll e e_rows) s_rows a_rows t_rows"
proof -
  have no: "\<forall>s \<in> set s_rows. \<not> on_song e s"
    using assms by (simp add: on_song_iff)
  have "\<forall>x \<in> set (songplays_join e_rows s_rows a_rows t_rows). fst x \<noteq> e"
    using no by (auto simp: songplays_join_iff)
  then have "filter (\<lambda>x. fst x = e) (songplays_join e_rows s_rows a_rows t_rows) = []"
    by (simp add: filter_empty_conv)
  moreover have "songplays_table e_rows s_rows a_rows t_rows =
         songplays_table (removeAll e e_rows) s_rows a_rows t_rows"
    unfolding songplays_table_def songplays_join_removeAll [OF no] ..
  ultimately show ?thesis ..
qed

theorem C3_no_match_no_row_witness:
  "song staged_unmatched \<noteq> title song_casual \<and>
   filter (\<lambda>x. fst x = staged_unmatched)
     (songplays_join [staged_play, staged_unmatched] [song_casual]
        (artists_table [song_casual]) (time_table [staged_play, staged_unmatched])) = [] \<and>
   songplays_table [staged_play, staged_unmatched] [song_casual]
        (artists_table [song_casual]) (time_table [staged_play, staged_unmatched]) =
   songplays_table (removeAll staged_unmatched [staged_play, staged_unmatched]) [song_casual]
        (artists_table [song_casual]) (time_table [staged_play, staged_unmatched])"
  using C3_no_match_no_row [of "[song_casual]" staged_unmatched
      "[staged_play, staged_unmatched]" "artists_table [song_casual]"
      "time_table [staged_play, staged_unmatched]"]
  by (simp add: song_casual_def staged_unmatched_def)

text \<open>
  C2 (as amended). Two song records have the same title and duration but different
  artist ids and artist names; an event matches both on (song, length) and its artist
  column is the artist name of the first. If no song record lists the second song's
  artist id under the artist name of the event, then no combination of the songplays join
  pairs the event with the second song.
\<close>

theorem C2_other_artist_rejected:
  assumes "s1 \<in> set s_rows" and "s2 \<in> set s_rows"
    and "title s1 = title s2" and "duration s1 = duration s2"
    and "artist_id s1 \<noteq> artist_id s2" and "artist_name s1 \<noteq> artist_name s2"
    and "song e = title s1" and "length' e = duration s1"
    and "artist e = artist_name s1"
    and "\<forall>s \<in> set s_rows. artist_id s = artist_id s2 \<longrightarrow> artist_name s \<noteq> artist e"
  shows "filter (\<lambda>x. fst x = e \<and> fst (snd x) = s2)
           (songplays_join e_rows s_rows (artists_table s_rows) t_rows) = []"
proof -
  have "\<not> (fst x = e \<and> fst (snd x) = s2)"
    if "x \<in> set (songplays_join e_rows s_rows (artists_table s_rows) t_rows)" for x
  proof
    assume x: "fst x = e \<and> fst (snd x) = s2"
    obtain a t where "x = (e, s2, a, t)"
      using x by (cases x) auto
    with that have a: "a \<in> set (artists_table s_rows)" "on_artist e s2 a"
      by (simp_all add: songplays_join_iff)
    from a(1) obtain s where s: "s \<in> set s_rows" "a = artists_of s"
      by (auto simp: artists_table_def)
    from a(2) s(2) have "artist_id s = artist_id s2" "artist_name s = artist e"
      by (simp_all add: on_artist_iff artists_of_def)
    with assms(10) s(1) show False by simp
  qed
  then show ?thesis by (simp add: filter_empty_conv)
qed

theorem C2_other_artist_rejected_witness:
  "song_casual \<in> set [song_casual, song_other] \<and>
   song_other \<in> set [song_casual, song_other] \<and>
   title song_casual = title song_other \<and> duration song_casual = duration song_other \<and>
   artist_id song_casual \<noteq> artist_id song_other \<and>
   artist_name song_casual \<noteq> artist_name song_other \<and>
   song staged_play = title song_casual \<and> length' staged_play = duration song_casual \<and>
   artist staged_play = artist_name song_casual \<and>
   filter (\<lambda>x. fst x = staged_play \<and> fst (snd x) = song_other)
     (songplays_join [staged_play] [song_casual, song_other]
       (artists_table [song_casual, song_other]) (time_table [staged_play])) = []"
  using C2_other_artist_rejected [of song_casual "[song_casual, song_other]" song_other
      staged_play "[staged_play]" "time_table [staged_play]"]
  by (simp add: song_casual_def song_other_def staged_play_def)

text \<open>
  The claim as stated fails when a third song record lists the second song's artist id
  under the first artist's name: the artists table then has a row with that name and
  that id, and the join pairs the event with the second song through it.
\<close>

theorem C2_alias_record_counterexample:
  "song_casual \<in> set [song_casual, song_other, song_alias] \<and>
   song_other \<in> set [song_casual, song_other, song_alias] \<and>
   title song_casual = title song_other \<and> duration song_casual = duration song_other \<and>
   artist_id song_casual \<noteq> artist_id song_other \<and>
   artist_name song_casual \<noteq> artist_name song_other \<and>
   song staged_play = title song_casual \<and> length' staged_play = duration song_casual \<and>
   artist staged_play = artist_name song_casual \<and>
   with_columns utc (select_event ev_play) = Inr staged_play \<and>
   (staged_play, song_other, artists_of song_alias, time_of staged_play) \<in>
     set (songplays_join [staged_play] [song_casual, song_other, song_alias]
            (artists_table [song_casual, song_other, song_alias]) (time_table [staged_play]))"
  using staged_play_eq
  by (simp add: songplays_join_iff on_song_iff on_artist_iff on_time_iff artists_table_def
      time_table_def artists_of_def time_of_def song_casual_def song_other_def song_alias_def
      staged_play_def)


section \<open>The jobs as functions of their inputs\<close>

lemma main_eq:
  "main u st =
     (case staging_events u (filtered_df (log_data st)) of
        Inl err \<Rightarrow> Inl err
      | Inr staged \<Rightarrow>
          Inr (\<lparr>view_staging_songs_table = Some (song_data st),
                view_artists_table = Some (artists_table (song_data st)),
                view_staging_events_table = Some staged,
                view_time_table = Some (time_table staged)\<rparr>,
               st\<lparr>out_songs := Some (songs_table (song_data st)),
                  out_artists := Some (artists_table (song_data st)),
                  out_users := Some (user_table (filtered_df (log_data st))),
                  out_time := Some (time_table staged),
                  out_songplays := Some (songplays_table staged (song_data st)
                     (artists_table (song_data st)) (time_table staged))\<rparr>))"
  by (simp add: main_def process_log_data_def process_song_data_def create_spark_session_def
      sql_songplays_def lookup_view_def Let_def split: sum.splits)

lemma process_log_data_Inr:
  assumes "process_log_data u (spark, st) = Inr (spark', st')"
  shows "\<exists>staged s_rows a_rows.
    staging_events u (filtered_df (log_data st)) = Inr staged \<and>
    view_staging_songs_table spark = Some s_rows \<and> view_artists_table spark = Some a_rows \<and>
    spark' = spark\<lparr>view_staging_events_table := Some staged,
                    view_time_table := Some (time_table staged)\<rparr> \<and>
    st' = st\<lparr>out_users := Some (user_table (filtered_df (log_data st))),
             out_time := Some (time_table staged),
             out_songplays := Some (songplays_table staged s_rows a_rows (time_table staged))\<rparr>"
  using assms
  by (auto simp: process_log_data_def sql_songplays_def lookup_view_def Let_def
      split: sum.splits option.splits)

lemma staging_events_set:
  "staging_events u es = Inr rs \<Longrightarrow> r \<in> set rs \<Longrightarrow> \<exists>e \<in> set es. with_columns u e = Inr r"
  by (induction es arbitrary: rs) (auto split: sum.splits)

lemma staging_events_set2:
  "staging_events u es = Inr rs \<Longrightarrow> e \<in> set es \<Longrightarrow> \<exists>r \<in> set rs. with_columns u e = Inr r"
  by (induction es arbitrary: rs) (auto split: sum.splits)

lemma example_song_job:
  "process_song_data (create_spark_session, input_storage example_songs example_log) =
   (example_songs_session, example_songs_output)"
  by code_simp

lemma example_log_job:
  "process_log_data utc (example_songs_session, example_songs_output) =
   Inr (example_session, example_output)"
  by code_simp

lemma example_run:
  "main utc (input_storage example_songs example_log) = Inr (example_session, example_output)"
  by code_simp

text \<open>
  C5. After a run of \<^verbatim>\<open>main\<close> that succeeds, the songs, artists and songplays tables
  are written, every \<open>song_id\<close> of a songplays row is the \<open>song_id\<close> of a songs row,
  every \<open>artist_id\<close> of a songplays row is the \<open>artist_id\<close> of an artists row, and every
  songs row has an artists row with its \<open>artist_id\<close>.
\<close>

theorem C5_referential_integrity:
  assumes "main u st = Inr (spark, st')"
  shows "\<exists>songs artists songplays.
    out_songs st' = Some songs \<and> out_artists st' = Some artists \<and>
    out_songplays st' = Some songplays \<and>
    (\<forall>r \<in> set songplays. sp_song_id r \<in> song_id ` set songs \<and>
                          sp_artist_id r \<in> a_artist_id ` set artists) \<and>
    (\<forall>s \<in> set songs. \<exists>a \<in> set artists. a_artist_id a = artist_id s)"
proof -
  let ?S = "song_data st"
  from assms obtain staged where
    st': "st' = st\<lparr>out_songs := Some (songs_table ?S),
                  out_artists := Some (artists_table ?S),
                  out_users := Some (user_table (filtered_df (log_data st))),
                  out_time := Some (time_table staged),
                  out_songplays := Some (songplays_table staged ?S
                     (artists_table ?S) (time_table staged))\<rparr>"
    unfolding main_eq by (auto split: sum.splits)
  have 1: "sp_song_id r \<in> song_id ` set (songs_table ?S) \<and>
           sp_artist_id r \<in> a_artist_id ` set (artists_table ?S)"
    if "r \<in> set (songplays_table staged ?S (artists_table ?S) (time_table staged))" for r
  proof -
    from that obtain e s a t where
      r: "r = songplays_of (e, s, a, t)" and
      j: "(e, s, a, t) \<in> set (songplays_join staged ?S (artists_table ?S) (time_table staged))"
      by (auto simp: songplays_table_def)
    from j have s: "s \<in> set ?S" and a: "a \<in> set (artists_table ?S)" and
      on: "on_artist e s a"
      by (simp_all add: songplays_join_iff)
    have "sp_song_id r = song_id (songs_of s)"
      by (simp add: r songplays_of_def songs_of_def)
    moreover have "songs_of s \<in> set (songs_table ?S)"
      using s by (simp add: songs_table_def)
    moreover have "sp_artist_id r = a_artist_id a"
      using on by (simp add: r songplays_of_def on_artist_iff)
    ultimately show ?thesis using a by blast
  qed
  have 2: "\<exists>a \<in> set (artists_table ?S). a_artist_id a = artist_id s"
    if "s \<in> set (songs_table ?S)" for s
  proof -
    from that obtain x where x: "x \<in> set ?S" "s = songs_of x"
      by (auto simp: songs_table_def)
    then have "artists_of x \<in> set (artists_table ?S)" "a_artist_id (artists_of x) = artist_id s"
      by (simp_all add: artists_table_def artists_of_def songs_of_def)
    then show ?thesis by blast
  qed
  show ?thesis
    unfolding st' using 1 2 by simp
qed


theorem C5_referential_integrity_witness:
  "main utc (input_storage example_songs example_log) = Inr (example_session, example_output) \<and>
   (\<exists>songs artists songplays.
      out_songs example_output = Some songs \<and> out_artists example_output = Some artists \<and>
      out_songplays example_output = Some songplays \<and>
      (\<forall>r \<in> set songplays. sp_song_id r \<in> song_id ` set songs \<and>
                            sp_artist_id r \<in> a_artist_id ` set artists) \<and>
      (\<forall>s \<in> set songs. \<exists>a \<in> set artists. a_artist_id a = artist_id s))"
  using C5_referential_integrity [OF example_run] example_run by (rule conjI [rotated])


section \<open>Only playback events reach the tables\<close>

lemma filtered_df_filter:
  "filtered_df (filter (\<lambda>l. page l = Some ''NextSong'') df) = filtered_df df"
  by (simp add: filtered_df_def)

text \<open>
  C4. After a run of \<^verbatim>\<open>process_log_data\<close> that succeeds, every row of the users table
  is the projection of a log record with \<open>page = NextSong\<close>, every row of the time table
  is computed from such a record, and every songplays row is selected from a join
  combination whose event is such a record. All three are computed from the filtered
  events alone: the job run on the log without its other records writes the same tables.
\<close>

theorem C4_only_NextSong_events:
  assumes "process_log_data u (spark, st) = Inr (spark', st')"
  shows "\<exists>users times songplays.
     out_users st' = Some users \<and> out_time st' = Some times \<and>
     out_songplays st' = Some songplays \<and>
     (\<forall>r \<in> set users. \<exists>l \<in> set (log_data st).
        page l = Some ''NextSong'' \<and> r = users_of (select_event l)) \<and>
     (\<forall>r \<in> set times. \<exists>l \<in> set (log_data st). \<exists>e.
        page l = Some ''NextSong'' \<and> with_columns u (select_event l) = Inr e \<and> r = time_of e) \<and>
     (\<forall>r \<in> set songplays. \<exists>l \<in> set (log_data st). \<exists>e s a t.
        page l = Some ''NextSong'' \<and> with_columns u (select_event l) = Inr e \<and>
        r = songplays_of (e, s, a, t)) \<and>
     process_log_data u
       (spark, st\<lparr>log_data := filter (\<lambda>l. page l = Some ''NextSong'') (log_data st)\<rparr>) =
     Inr (spark', st'\<lparr>log_data := filter (\<lambda>l. page l = Some ''NextSong'') (log_data st)\<rparr>)"
proof -
  let ?F = "filtered_df (log_data st)"
  from process_log_data_Inr [OF assms] obtain staged s_rows a_rows where
    staged: "staging_events u ?F = Inr staged" and
    views: "view_staging_songs_table spark = Some s_rows" "view_artists_table spark = Some a_rows" and
    spark': "spark' = spark\<lparr>view_staging_events_table := Some staged,
                    view_time_table := Some (time_table staged)\<rparr>" and
    st': "st' = st\<lparr>out_users := Some (user_table ?F),
             out_time := Some (time_table staged),
             out_songplays := Some (songplays_table staged s_rows a_rows (time_table staged))\<rparr>"
    by blast
  have ev: "\<exists>l \<in> set (log_data st). page l = Some ''NextSong'' \<and> with_columns u (select_event l) = Inr e"
    if "e \<in> set staged" for e
  proof -
    from staging_events_set [OF staged that] obtain x where
      x: "x \<in> set ?F" "with_columns u x = Inr e" by blast
    from x(1) obtain l where "l \<in> set (log_data st)" "page l = Some ''NextSong''" "x = select_event l"
      unfolding set_filtered_df by blast
    with x(2) show ?thesis by blast
  qed
  have 1: "\<exists>l \<in> set (log_data st). page l = Some ''NextSong'' \<and> r = users_of (select_event l)"
    if "r \<in> set (user_table ?F)" for r
  proof -
    from that obtain x where "x \<in> set ?F" "r = users_of x"
      by (auto simp: user_table_def)
    then show ?thesis unfolding set_filtered_df by blast
  qed
  have 2: "\<exists>l \<in> set (log_data st). \<exists>e.
        page l = Some ''NextSong'' \<and> with_columns u (select_event l) = Inr e \<and> r = time_of e"
    if "r \<in> set (time_table staged)" for r
  proof -
    from that obtain e where "e \<in> set staged" "r = time_of e"
      by (auto simp: time_table_def)
    with ev [of e] show ?thesis by blast
  qed
  have 3: "\<exists>l \<in> set (log_data st). \<exists>e s a t.
        page l = Some ''NextSong'' \<and> with_columns u (select_event l) = Inr e \<and>
        r = songplays_of (e, s, a, t)"
    if "r \<in> set (songplays_table staged s_rows a_rows (time_table staged))" for r
  proof -
    from that obtain e s a t where
      r: "r = songplays_of (e, s, a, t)" and
      j: "(e, s, a, t) \<in> set (songplays_join staged s_rows a_rows (time_table staged))"
      by (auto simp: songplays_table_def)
    from j have "e \<in> set staged" by (simp add: songplays_join_iff)
    with ev [of e] r show ?thesis by blast
  qed
  have 4: "process_log_data u
       (spark, st\<lparr>log_data := filter (\<lambda>l. page l = Some ''NextSong'') (log_data st)\<rparr>) =
     Inr (spark', st'\<lparr>log_data := filter (\<lambda>l. page l = Some ''NextSong'') (log_data st)\<rparr>)"
    unfolding spark' st'
    by (simp add: process_log_data_def filtered_df_filter staged views sql_songplays_def
        lookup_view_def Let_def)
  show ?thesis
    using 1 2 3 4 by (simp add: st')
qed

theorem C4_only_NextSong_events_witness:
  "process_log_data utc (example_songs_session, example_songs_output) =
     Inr (example_session, example_output) \<and>
   (\<exists>users times songplays.
     out_users example_output = Some users \<and> out_time example_output = Some times \<and>
     out_songplays example_output = Some songplays \<and>
     (\<forall>r \<in> set users. \<exists>l \<in> set (log_data example_songs_output).
        page l = Some ''NextSong'' \<and> r = users_of (select_event l)) \<and>
     (\<forall>r \<in> set times. \<exists>l \<in> set (log_data example_songs_output). \<exists>e.
        page l = Some ''NextSong'' \<and> with_columns utc (select_event l) = Inr e \<and> r = time_of e) \<and>
     (\<forall>r \<in> set songplays. \<exists>l \<in> set (log_data example_songs_output). \<exists>e s a t.
        page l = Some ''NextSong'' \<and> with_columns utc (select_event l) = Inr e \<and>
        r = songplays_of (e, s, a, t)) \<and>
     process_log_data utc
       (example_songs_session, example_songs_output\<lparr>log_data :=
          filter (\<lambda>l. page l = Some ''NextSong'') (log_data example_songs_output)\<rparr>) =
     Inr (example_session, example_output\<lparr>log_data :=
          filter (\<lambda>l. page l = Some ''NextSong'') (log_data example_songs_output)\<rparr>))"
  using C4_only_NextSong_events [OF example_log_job] example_log_job by (rule conjI [rotated])


section \<open>The second read of the song files\<close>






section \<open>The calendar functions are inverse to each other\<close>

lemma div_step:
  fixes y k :: int
  assumes "0 < k"
  shows "y div k - (y - 1) div k = (if y mod k = 0 then 1 else 0)"
proof (cases "y mod k = 0")
  case True
  then obtain q where q: "y = k * q" by (auto simp: mod_eq_0_iff_dvd)
  have "(y - 1) div k = q - 1"
  proof (rule div_pos_pos_trivial [THEN sym, THEN sym] int_div_pos_eq)
    show "y - 1 = k * (q - 1) + (k - 1)" by (simp add: q algebra_simps)
  qed (use assms in auto)
  then show ?thesis using True assms by (simp add: q)
next
  case False
  define q where "q = y div k"
  define r where "r = y mod k"
  have y: "y = k * q + r" by (simp add: q_def r_def)
  have "0 \<le> r" "r < k" using assms by (simp_all add: r_def)
  with False have r: "0 < r" "r < k" by (simp_all add: r_def)
  have "(y - 1) div k = q"
  proof (rule int_div_pos_eq)
    show "y - 1 = k * q + (r - 1)" by (simp add: y)
  qed (use r in auto)
  then show ?thesis using False by (simp add: q_def)
qed


lemma days_before_year_Suc: "days_before_year (y + 1) = days_before_year y + days_in_year y"
proof -
  define d4 where "d4 = y div 4 - (y - 1) div 4"
  define d100 where "d100 = y div 100 - (y - 1) div 100"
  define d400 where "d400 = y div 400 - (y - 1) div 400"
  have 4: "d4 = (if y mod 4 = 0 then 1 else 0)"
    unfolding d4_def by (rule div_step) simp
  have 100: "d100 = (if y mod 100 = 0 then 1 else 0)"
    unfolding d100_def by (rule div_step) simp
  have 400: "d400 = (if y mod 400 = 0 then 1 else 0)"
    unfolding d400_def by (rule div_step) simp
  have a: "y mod 4 = 0" if "y mod 100 = 0"
  proof -
    from that have "100 dvd y" by (simp add: mod_eq_0_iff_dvd)
    moreover have "(4::int) dvd 100" by simp
    ultimately have "4 dvd y" by (rule dvd_trans [rotated])
    then show ?thesis by (simp add: mod_eq_0_iff_dvd)
  qed
  have b: "y mod 100 = 0" if "y mod 400 = 0"
  proof -
    from that have "400 dvd y" by (simp add: mod_eq_0_iff_dvd)
    moreover have "(100::int) dvd 400" by simp
    ultimately have "100 dvd y" by (rule dvd_trans [rotated])
    then show ?thesis by (simp add: mod_eq_0_iff_dvd)
  qed
  have step: "days_before_year (y + 1) = days_before_year y + (365 + d4 - d100 + d400)"
    by (simp add: days_before_year_def d4_def d100_def d400_def)
  have "days_in_year y = 365 + d4 - d100 + d400"
  proof (cases "y mod 4 = 0")
    case False
    with a b show ?thesis
      unfolding 4 100 400 days_in_year_def is_leap_def by auto
  next
    case y4: True
    show ?thesis
    proof (cases "y mod 100 = 0")
      case False
      with y4 b show ?thesis
        unfolding 4 100 400 days_in_year_def is_leap_def by auto
    next
      case y100: True
      show ?thesis
        using y4 y100 unfolding 4 100 400 days_in_year_def is_leap_def by simp
    qed
  qed
  with step show ?thesis by simp
qed

lemma find_year_inv:
  "find_year y r = (y', r') \<Longrightarrow>
     days_before_year y' + r' = days_before_year y + r \<and> 0 \<le> r' \<and> r' < days_in_year y'"
proof (induction y r rule: find_year.induct)
  case (1 y r)
  consider (before) "r < 0" | (after) "0 \<le> r" "days_in_year y \<le> r"
    | (inside) "0 \<le> r" "r < days_in_year y"
    by linarith
  then show ?case
  proof cases
    case before
    then have "find_year y r = find_year (y - 1) (r + days_in_year (y - 1))"
      by (subst find_year.simps) simp
    with "1.prems" have "find_year (y - 1) (r + days_in_year (y - 1)) = (y', r')"
      by simp
    from "1.IH"(1) [OF before this] days_before_year_Suc [of "y - 1"]
    show ?thesis by simp
  next
    case after
    then have "find_year y r = find_year (y + 1) (r - days_in_year y)"
      by (subst find_year.simps) simp
    with "1.prems" have "find_year (y + 1) (r - days_in_year y) = (y', r')"
      by simp
    from "1.IH"(2) [OF _ after(2) this] after(1) days_before_year_Suc [of y]
    show ?thesis by simp
  next
    case inside
    then have "find_year y r = (y, r)"
      by (subst find_year.simps) simp
    with "1.prems" inside show ?thesis by simp
  qed
qed

lemma months: "[1..12::int] = [1, 2, 3, 4, 5, 6, 7, 8, 9, 10, 11, 12]"
  by (simp add: upto_rec1)

lemma sum_months: "(\<Sum>k\<leftarrow>[1..12]. days_in_month y k) = days_in_year y"
  unfolding months by (simp add: days_in_month_def days_in_year_def)

lemma days_in_month_pos: "0 < days_in_month y k"
  by (simp add: days_in_month_def)

lemma find_month_upto:
  assumes "0 \<le> r" and "r < (\<Sum>k\<leftarrow>[a..b]. days_in_month y k)"
    and "find_month y [a..b] m0 r = (m, d)"
  shows "a \<le> m \<and> m \<le> b \<and> 1 \<le> d \<and> d \<le> days_in_month y m \<and>
         (\<Sum>k\<leftarrow>[a..m - 1]. days_in_month y k) + (d - 1) = r"
  using assms
proof (induction a b arbitrary: r m0 rule: upto.induct)
  case (1 a b)
  show ?case
  proof (cases "a \<le> b")
    case False
    with "1.prems" show ?thesis by simp
  next
    case True
    then have ab: "[a..b] = a # [a + 1..b]" by (rule upto_rec1)
    show ?thesis
    proof (cases "r < days_in_month y a")
      case lt: True
      with "1.prems" True show ?thesis by (simp add: ab)
    next
      case ge: False
      then have rec: "find_month y [a + 1..b] a (r - days_in_month y a) = (m, d)"
        using "1.prems"(3) by (simp add: ab)
      have "a + 1 \<le> m \<and> m \<le> b \<and> 1 \<le> d \<and> d \<le> days_in_month y m \<and>
         (\<Sum>k\<leftarrow>[a + 1..m - 1]. days_in_month y k) + (d - 1) = r - days_in_month y a"
        using "1.IH" [OF True _ _ rec] ge "1.prems"(2) by (simp add: ab)
      moreover from this have "[a..m - 1] = a # [a + 1..m - 1]"
        by (intro upto_rec1) simp
      ultimately show ?thesis by simp
    qed
  qed
qed

lemma civil_from_days_inv:
  assumes "civil_from_days z = (y, m, d)"
  shows "1 \<le> m \<and> m \<le> 12 \<and> 1 \<le> d \<and> d \<le> days_in_month y m \<and> days_from_civil (y, m, d) = z"
proof -
  obtain y' r where fy: "find_year 1970 z = (y', r)"
    by (cases "find_year 1970 z")
  obtain m' d' where fm: "find_month y' [1..12] 12 r = (m', d')"
    by (cases "find_month y' [1..12] 12 r")
  from assms fy fm have eq: "y' = y" "m' = m" "d' = d"
    by (simp_all add: civil_from_days_def)
  have base: "days_before_year 1970 = 0"
    by (simp add: days_before_year_def)
  from find_year_inv [OF fy] base have r: "days_before_year y' + r = z" "0 \<le> r" "r < days_in_year y'"
    by simp_all
  from r(3) have "r < (\<Sum>k\<leftarrow>[1..12]. days_in_month y' k)"
    by (simp only: sum_months)
  from find_month_upto [OF r(2) this fm] r(1) show ?thesis
    unfolding eq [symmetric] by (simp add: days_from_civil_def days_before_month_def)
qed

section \<open>Spark reads back what \<^verbatim>\<open>strftime\<close> wrote\<close>

lemma digit_val_digit_char: "0 \<le> n \<Longrightarrow> n \<le> 9 \<Longrightarrow> digit_val (digit_char n) = Some n"
  by (simp add: digit_val_def digit_char_def)

lemma parse_zero_pad2:
  assumes "0 \<le> n" and "n < 100"
  shows "parse_digits acc (zero_pad2 n @ r) = parse_digits (100 * acc + n) r"
proof -
  have "0 \<le> n div 10" "n div 10 \<le> 9" "0 \<le> n mod 10" "n mod 10 \<le> 9"
    using assms by simp_all
  moreover have "10 * (10 * acc + n div 10) + n mod 10 = 100 * acc + n"
    by simp
  ultimately show ?thesis
    by (simp add: zero_pad2_def digit_val_digit_char add.commute)
qed

lemma parse_zero_pad4:
  assumes "0 \<le> n" and "n < 10000"
  shows "parse_digits 0 (zero_pad4 n) = Some n"
proof -
  have "0 \<le> n div 100" "n div 100 < 100" "0 \<le> n mod 100" "n mod 100 < 100"
    using assms by simp_all
  then show ?thesis
    using parse_zero_pad2 [of "n div 100" 0 "zero_pad2 (n mod 100)"]
      parse_zero_pad2 [of "n mod 100" "n div 100" "[]"]
    by (simp add: zero_pad4_def)
qed

lemma parse_zero_pad2_0: "0 \<le> n \<Longrightarrow> n < 100 \<Longrightarrow> parse_digits 0 (zero_pad2 n) = Some n"
  using parse_zero_pad2 [of n 0 "[]"] by simp

lemma length_zero_pad [simp]: "length (zero_pad2 n) = 2" "length (zero_pad4 n) = 4"
  by (simp_all add: zero_pad2_def zero_pad4_def)

lemma date_string_parts:
  assumes "length a = 4" and "length b = 2" and "length c = 2"
  shows "take 4 (a @ CHR ''-'' # b @ CHR ''-'' # c @ r) = a"
    and "take 2 (drop 5 (a @ CHR ''-'' # b @ CHR ''-'' # c @ r)) = b"
    and "take 2 (drop 8 (a @ CHR ''-'' # b @ CHR ''-'' # c @ r)) = c"
    and "(a @ CHR ''-'' # b @ CHR ''-'' # c @ r) ! 4 = CHR ''-''"
    and "(a @ CHR ''-'' # b @ CHR ''-'' # c @ r) ! 7 = CHR ''-''"
    and "(a @ CHR ''-'' # b @ CHR ''-'' # c @ x # r') ! 10 = x"
    and "drop 11 (a @ CHR ''-'' # b @ CHR ''-'' # c @ x # r') = r'"
    and "take 10 (a @ CHR ''-'' # b @ CHR ''-'' # c @ r) = a @ CHR ''-'' # b @ CHR ''-'' # c"
  using assms by (simp_all add: nth_append)


lemma time_string_parts:
  assumes "length a = 2" and "length b = 2" and "length c = 2"
  shows "take 2 (a @ CHR '':'' # b @ CHR '':'' # c) = a"
    and "take 2 (drop 3 (a @ CHR '':'' # b @ CHR '':'' # c)) = b"
    and "take 2 (drop 6 (a @ CHR '':'' # b @ CHR '':'' # c)) = c"
    and "(a @ CHR '':'' # b @ CHR '':'' # c) ! 2 = CHR '':''"
    and "(a @ CHR '':'' # b @ CHR '':'' # c) ! 5 = CHR '':''"
  using assms by (simp_all add: nth_append)

lemma valid_date_bounds:
  assumes "valid_date (y, m, d)"
  shows "0 \<le> y" "y < 10000" "0 \<le> m" "m < 100" "0 \<le> d" "d < 100"
  using assms by (auto simp: valid_date_def days_in_month_def split: if_splits)

lemma stringToDate_date_string:
  assumes "valid_date (y, m, d)" and "r = [] \<or> hd r = CHR '' ''"
  shows "stringToDate (zero_pad4 y @ CHR ''-'' # zero_pad2 m @ CHR ''-'' # zero_pad2 d @ r) =
         Some (y, m, d)"
proof -
  note b = valid_date_bounds [OF assms(1)]
  let ?s = "zero_pad4 y @ CHR ''-'' # zero_pad2 m @ CHR ''-'' # zero_pad2 d @ r"
  have sep: "length ?s = 10 \<or> ?s ! 10 = CHR '' ''"
  proof (cases r)
    case Nil
    then show ?thesis by simp
  next
    case (Cons x r')
    with assms(2) have "x = CHR '' ''" by simp
    then show ?thesis unfolding Cons by (simp add: date_string_parts)
  qed
  have cond: "10 \<le> length ?s \<and> ?s ! 4 = CHR ''-'' \<and> ?s ! 7 = CHR ''-'' \<and>
         (length ?s = 10 \<or> ?s ! 10 = CHR '' '' \<or> ?s ! 10 = CHR ''T'')"
    using sep by (auto simp: date_string_parts)
  have "stringToDate ?s =
     (case (parse_digits 0 (take 4 ?s), parse_digits 0 (take 2 (drop 5 ?s)),
                  parse_digits 0 (take 2 (drop 8 ?s))) of
              (Some y, Some m, Some d) \<Rightarrow> if valid_date (y, m, d) then Some (y, m, d) else None
            | _ \<Rightarrow> None)"
    by (simp only: stringToDate_def cond if_True simp_thms)
  also have "\<dots> = Some (y, m, d)"
    using assms(1)
    by (simp add: date_string_parts parse_zero_pad4 [OF b(1,2)] parse_zero_pad2_0 [OF b(3,4)]
        parse_zero_pad2_0 [OF b(5,6)])
  finally show ?thesis .
qed


lemma stringToDate_strftime_date:
  "valid_date dt \<Longrightarrow> stringToDate (strftime_date (dt, tod)) = Some dt"
  using stringToDate_date_string [of "fst dt" "fst (snd dt)" "snd (snd dt)" "[]"]
  by (cases dt) (simp add: strftime_date_def)

lemma stringToDate_strftime_datetime:
  "valid_date dt \<Longrightarrow> stringToDate (strftime_datetime (dt, tod)) = Some dt"
  using stringToDate_date_string [of "fst dt" "fst (snd dt)" "snd (snd dt)"
      "CHR '' '' # zero_pad2 (fst tod) @ CHR '':'' # zero_pad2 (fst (snd tod)) @
       CHR '':'' # zero_pad2 (snd (snd tod))"]
  by (cases dt; cases tod) (simp add: strftime_datetime_def)

lemma length_strftime_date: "length (strftime_date x) = 10"
  by (cases x) (auto simp: strftime_date_def)

lemma stringToTimestamp_strftime_date:
  "valid_date dt \<Longrightarrow> stringToTimestamp (strftime_date (dt, tod)) = Some (dt, (0, 0, 0))"
  by (simp add: stringToTimestamp_def stringToDate_strftime_date length_strftime_date)

lemma strftime_date_take:
  "strftime_date x = take 10 (strftime_datetime x)"
  by (cases x) (auto simp: strftime_date_def strftime_datetime_def date_string_parts)

lemma stringToTimestamp_strftime_datetime:
  assumes "valid_date dt" and "0 \<le> H" "H \<le> 23" "0 \<le> M" "M \<le> 59" "0 \<le> S" "S \<le> 59"
  shows "stringToTimestamp (strftime_datetime (dt, (H, M, S))) = Some (dt, (H, M, S))"
proof -
  obtain y m d where dt: "dt = (y, m, d)" by (cases dt)
  let ?t = "zero_pad2 H @ CHR '':'' # zero_pad2 M @ CHR '':'' # zero_pad2 S"
  have s: "strftime_datetime (dt, (H, M, S)) =
     zero_pad4 y @ CHR ''-'' # zero_pad2 m @ CHR ''-'' # zero_pad2 d @ CHR '' '' # ?t"
    by (simp add: strftime_datetime_def dt)
  have "stringToTime ?t = Some (H, M, S)"
    using assms(2-)
    by (simp add: stringToTime_def time_string_parts parse_zero_pad2_0)
  then show ?thesis
    using stringToDate_strftime_datetime [OF assms(1), of "(H, M, S)"]
    unfolding stringToTimestamp_def
    by (simp add: s date_string_parts)
qed

section \<open>The time table\<close>

lemma dayofweek_sunday_first:
  "iso_weekday z mod 7 + 1 = sunday_first (weekday_of_day z)"
proof -
  have "0 \<le> z mod 7" "z mod 7 < 7" by simp_all
  then consider "z mod 7 = 0" | "z mod 7 = 1" | "z mod 7 = 2" | "z mod 7 = 3"
    | "z mod 7 = 4" | "z mod 7 = 5" | "z mod 7 = 6"
    by linarith
  then show ?thesis
  proof cases
    case 1 then show ?thesis
      using mod_add_left_eq [of z 7 3] by (simp add: iso_weekday_def weekday_of_day_def)
  next
    case 2 then show ?thesis
      using mod_add_left_eq [of z 7 3] by (simp add: iso_weekday_def weekday_of_day_def)
  next
    case 3 then show ?thesis
      using mod_add_left_eq [of z 7 3] by (simp add: iso_weekday_def weekday_of_day_def)
  next
    case 4 then show ?thesis
      using mod_add_left_eq [of z 7 3] by (simp add: iso_weekday_def weekday_of_day_def)
  next
    case 5 then show ?thesis
      using mod_add_left_eq [of z 7 3] by (simp add: iso_weekday_def weekday_of_day_def)
  next
    case 6 then show ?thesis
      using mod_add_left_eq [of z 7 3] by (simp add: iso_weekday_def weekday_of_day_def)
  next
    case 7 then show ?thesis
      using mod_add_left_eq [of z 7 3] by (simp add: iso_weekday_def weekday_of_day_def)
  qed
qed

lemma fromtimestamp_Inr:
  assumes "fromtimestamp u s = Inr (dt, tod)"
  shows "valid_date dt" and "days_from_civil dt = (s + u s) div 86400"
    and "tod = ((s + u s) mod 86400 div 3600, (s + u s) mod 86400 mod 3600 div 60,
                (s + u s) mod 86400 mod 60)"
proof -
  obtain y m d where c: "civil_from_days ((s + u s) div 86400) = (y, m, d)"
    by (cases "civil_from_days ((s + u s) div 86400)")
  from assms have dt: "dt = (y, m, d)" and y: "1 \<le> y" "y \<le> 9999"
    and tod: "tod = ((s + u s) mod 86400 div 3600, (s + u s) mod 86400 mod 3600 div 60,
                (s + u s) mod 86400 mod 60)"
    by (auto simp: fromtimestamp_def Let_def c split: if_splits)
  from civil_from_days_inv [OF c] y show "valid_date dt"
    by (simp add: dt valid_date_def)
  from civil_from_days_inv [OF c] show "days_from_civil dt = (s + u s) div 86400"
    by (simp add: dt)
  show "tod = ((s + u s) mod 86400 div 3600, (s + u s) mod 86400 mod 3600 div 60,
                (s + u s) mod 86400 mod 60)" by (rule tod)
qed

lemma with_columns_Inr:
  assumes "with_columns u e = Inr r"
  shows "\<exists>ms x. ts e = Some ms \<and> fromtimestamp u (ms div 1000) = Inr x \<and>
           get_timestamp u (ts e) = Inr (timestamp r) \<and>
           timestamp r = strftime_datetime x \<and> datetime r = strftime_date x"
  using assms
  by (cases "ts e"; cases "fromtimestamp u (the (ts e) div 1000)")
     (auto simp: with_columns_def get_timestamp_def get_datetime_def split: sum.splits)

lemma time_of_strftime:
  assumes "valid_date dt" and "timestamp r = strftime_datetime (dt, tod)"
    and "datetime r = strftime_date (dt, tod)"
  shows "time_of r =
     \<lparr>t_start_time = strftime_datetime (dt, tod), t_hour = Some 0,
      t_day = Some (snd (snd dt)), t_week = Some (iso_week dt),
      t_month = Some (fst (snd dt)), t_year = Some (fst dt),
      t_weekday = Some (sunday_first (weekday_of_day (days_from_civil dt)))\<rparr>"
  using assms(1)
  by (cases dt)
     (simp add: time_of_def assms(2,3) extract_hour_def extract_day_def extract_week_def
      extract_month_def extract_year_def extract_dayofweek_def stringToDate_strftime_date
      stringToDate_strftime_datetime stringToTimestamp_strftime_date dayofweek_sunday_first)

lemma filter_eq_distinct: "distinct xs \<Longrightarrow> x \<in> set xs \<Longrightarrow> filter (\<lambda>y. y = x) xs = [x]"
proof (induction xs)
  case Nil
  then show ?case by simp
next
  case (Cons a xs)
  show ?case
  proof (cases "a = x")
    case True
    with Cons.prems(1) have "x \<notin> set xs" by simp
    then have "filter (\<lambda>y. y = x) xs = []" by (auto simp: filter_empty_conv)
    with True show ?thesis by simp
  next
    case False
    with Cons show ?thesis by simp
  qed
qed

lemma filter_distinct_singleton:
  assumes "distinct xs" and "x \<in> set xs" and "P x" and "\<forall>y \<in> set xs. P y \<longrightarrow> y = x"
  shows "filter P xs = [x]"
proof -
  have "filter P xs = filter (\<lambda>y. y = x) xs"
    using assms(3,4) by (intro filter_cong) auto
  with filter_eq_distinct [OF assms(1,2)] show ?thesis by simp
qed

lemma staged_time_of:
  assumes "with_columns u e = Inr r" and "ts e = Some ms"
  shows "\<exists>dt tod. fromtimestamp u (ms div 1000) = Inr (dt, tod) \<and>
     get_timestamp u (Some ms) = Inr (strftime_datetime (dt, tod)) \<and>
     timestamp r = strftime_datetime (dt, tod) \<and>
     time_of r =
       \<lparr>t_start_time = strftime_datetime (dt, tod), t_hour = Some 0,
        t_day = Some (snd (snd dt)), t_week = Some (iso_week dt),
        t_month = Some (fst (snd dt)), t_year = Some (fst dt),
        t_weekday = Some (sunday_first (weekday_of_day (local_day u ms)))\<rparr>"
proof -
  from with_columns_Inr [OF assms(1)] obtain ms' y where
    y: "ts e = Some ms'" "fromtimestamp u (ms' div 1000) = Inr y"
       "get_timestamp u (ts e) = Inr (timestamp r)"
       "timestamp r = strftime_datetime y" "datetime r = strftime_date y"
    by blast
  obtain dt tod where dt: "y = (dt, tod)" by (cases y)
  from y(1) assms(2) have ms: "ms' = ms" by simp
  have x: "fromtimestamp u (ms div 1000) = Inr (dt, tod)"
       "get_timestamp u (Some ms) = Inr (timestamp r)"
       "timestamp r = strftime_datetime (dt, tod)" "datetime r = strftime_date (dt, tod)"
    using y assms(2) unfolding dt ms by simp_all
  note f = fromtimestamp_Inr [OF x(1)]
  from time_of_strftime [OF f(1) x(3,4)] f(2) x show ?thesis
    by (simp add: local_day_def)
qed

lemma staged_time_of_timestamp:
  assumes "with_columns u e = Inr r" and "with_columns u e' = Inr r'"
    and "timestamp r = timestamp r'"
  shows "time_of r = time_of r'"
proof -
  from with_columns_Inr [OF assms(1)] have "datetime r = take 10 (timestamp r)"
    by (auto simp: strftime_date_take)
  moreover from with_columns_Inr [OF assms(2)] have "datetime r' = take 10 (timestamp r')"
    by (auto simp: strftime_date_take)
  ultimately show ?thesis
    using assms(3) by (simp add: time_of_def)
qed

lemma time_rows_of_event:
  assumes staged: "staging_events u es = Inr staged" and e: "e \<in> set es" and ms: "ts e = Some ms"
  shows "\<exists>r0 start. with_columns u e = Inr r0 \<and> get_timestamp u (Some ms) = Inr start \<and>
     timestamp r0 = start \<and> time_of r0 \<in> set (time_table staged) \<and>
     t_start_time (time_of r0) = start \<and>
     (\<forall>row \<in> set (time_table staged). t_start_time row = start \<longrightarrow> row = time_of r0)"
proof -
  from staging_events_set2 [OF staged e] obtain r0 where
    r0: "r0 \<in> set staged" "with_columns u e = Inr r0" by blast
  from staged_time_of [OF r0(2) ms] have g: "get_timestamp u (Some ms) = Inr (timestamp r0)"
    by auto
  have "row = time_of r0"
    if "row \<in> set (time_table staged)" "t_start_time row = timestamp r0" for row
  proof -
    from that(1) obtain r where r: "r \<in> set staged" "row = time_of r"
      by (auto simp: time_table_def)
    from staging_events_set [OF staged r(1)] obtain e' where "with_columns u e' = Inr r"
      by blast
    moreover from that(2) r(2) have "timestamp r = timestamp r0"
      by (simp add: time_of_def)
    ultimately show ?thesis
      using staged_time_of_timestamp [OF _ r0(2)] r(2) by simp
  qed
  moreover have "time_of r0 \<in> set (time_table staged)"
    using r0(1) by (simp add: time_table_def)
  moreover have "t_start_time (time_of r0) = timestamp r0"
    by (simp add: time_of_def)
  ultimately show ?thesis using r0(2) g by blast
qed

text \<open>
  C7. After a run of \<^verbatim>\<open>process_log_data\<close> that succeeds, two filtered events whose
  \<open>ts\<close> values differ but lie in the same whole second (\<open>ts div 1000\<close>) get the same
  \<open>start_time\<close>, and the time table has exactly one row with that \<open>start_time\<close>.
\<close>

theorem C7_one_time_row_per_second:
  assumes "process_log_data u (spark, st) = Inr (spark', st')"
    and "e1 \<in> set (filtered_df (log_data st))" and "e2 \<in> set (filtered_df (log_data st))"
    and "ts e1 = Some ms1" and "ts e2 = Some ms2"
    and "ms1 \<noteq> ms2" and "ms1 div 1000 = ms2 div 1000"
  shows "\<exists>times start. out_time st' = Some times \<and>
     get_timestamp u (Some ms1) = Inr start \<and> get_timestamp u (Some ms2) = Inr start \<and>
     length (filter (\<lambda>row. t_start_time row = start) times) = 1"
proof -
  from process_log_data_Inr [OF assms(1)] obtain staged where
    staged: "staging_events u (filtered_df (log_data st)) = Inr staged" and
    out: "out_time st' = Some (time_table staged)"
    by auto
  from time_rows_of_event [OF staged assms(2,4)] obtain r0 start where
    r0: "get_timestamp u (Some ms1) = Inr start" "time_of r0 \<in> set (time_table staged)"
     "t_start_time (time_of r0) = start"
     "\<forall>row \<in> set (time_table staged). t_start_time row = start \<longrightarrow> row = time_of r0"
    by blast
  have same: "get_timestamp u (Some ms2) = get_timestamp u (Some ms1)"
    using assms(7) by (simp add: get_timestamp_def)
  have "distinct (time_table staged)"
    by (simp add: time_table_def)
  from filter_distinct_singleton [OF this r0(2), of "\<lambda>row. t_start_time row = start"] r0(3,4)
  have "filter (\<lambda>row. t_start_time row = start) (time_table staged) = [time_of r0]"
    by blast
  with out r0(1) same show ?thesis by simp
qed

theorem C7_one_time_row_per_second_witness:
  "process_log_data utc (example_songs_session, example_songs_output) =
     Inr (example_session, example_output) \<and>
   select_event ev_play \<in> set (filtered_df (log_data example_songs_output)) \<and>
   select_event ev_play_later \<in> set (filtered_df (log_data example_songs_output)) \<and>
   ts (select_event ev_play) = Some 1541121934796 \<and>
   ts (select_event ev_play_later) = Some 1541121934999 \<and>
   (1541121934796::int) \<noteq> 1541121934999 \<and>
   (1541121934796::int) div 1000 = 1541121934999 div 1000 \<and>
   (\<exists>times start. out_time example_output = Some times \<and>
     get_timestamp utc (Some 1541121934796) = Inr start \<and>
     get_timestamp utc (Some 1541121934999) = Inr start \<and>
     length (filter (\<lambda>row. t_start_time row = start) times) = 1)"
proof -
  have 1: "select_event ev_play \<in> set (filtered_df (log_data example_songs_output))"
    by code_simp
  have 2: "select_event ev_play_later \<in> set (filtered_df (log_data example_songs_output))"
    by code_simp
  have 3: "ts (select_event ev_play) = Some 1541121934796"
    by code_simp
  have 4: "ts (select_event ev_play_later) = Some 1541121934999"
    by code_simp
  have 5: "(1541121934796::int) \<noteq> 1541121934999" by simp
  have 6: "(1541121934796::int) div 1000 = 1541121934999 div 1000" by simp
  from C7_one_time_row_per_second [OF example_log_job 1 2 3 4 5 6] example_log_job 1 2 3 4 5 6
  show ?thesis by blast
qed



text \<open>
  C1. The hour column is extracted from the date-only column \<open>datetime\<close>, so it is the
  hour of midnight. For \<open>ts = 1541121934796\<close> under UTC the instant is 2018-11-02
  01:25:34: the time row has \<open>start_time\<close> 2018-11-02 01:25:34 and hour 0, while the hour
  of the instant, and of \<open>start_time\<close> itself, is 1.
\<close>

theorem C1_hour_column_is_midnight:
  "ts (select_event ev_play) = Some 1541121934796 \<and>
   fromtimestamp utc (1541121934796 div 1000) = Inr ((2018, 11, 2), (1, 25, 34)) \<and>
   with_columns utc (select_event ev_play) = Inr staged_play \<and>
   time_of staged_play = example_time_row \<and>
   t_start_time example_time_row = ''2018-11-02 01:25:34'' \<and>
   t_hour example_time_row = Some 0 \<and>
   extract_hour (timestamp staged_play) = Some 1"
  by code_simp



section \<open>Equal inputs give equal tables\<close>















end
